theory Spec2Isabelle
  imports Complex_Main "HOL-Library.Multiset"
begin

section \<open>Order-book slippage aggregation\<close>

text \<open>
  The development embeds cells 3, 5 and 6 of the notebook
  \<^verbatim>\<open>Historical Orderbook Bid Ask Spread Aggregation\<close>: the split of the
  snapshot rows into a bid book and an ask book, the two window specifications, the
  \<^verbatim>\<open>withColumn\<close> chains that compute the slippage columns, and the join and
  \<^verbatim>\<open>groupby\<close>/\<^verbatim>\<open>first\<close> aggregation.

  Spark's \<^verbatim>\<open>double\<close> columns are read as real numbers, so every statement
  below is about the arithmetic the notebook writes down, not about rounding. The
  null semantics of Spark SQL is kept: a nullable column is an \<open>option\<close>, a division
  by zero yields null, an expression with a null operand is null, and a
  \<^verbatim>\<open>when\<close> whose condition is false or null takes its
  \<^verbatim>\<open>otherwise\<close> value, or null when it has none.
\<close>

subsection \<open>Rows of the snapshot table\<close>

text \<open>
  One row of \<^verbatim>\<open>trades\<close> after cell 3.2: the columns \<^verbatim>\<open>price\<close>,
  \<^verbatim>\<open>quantity\<close>, \<^verbatim>\<open>exchangeTimestamp\<close> (cast to long) and
  \<^verbatim>\<open>isBid\<close>.
\<close>

record trade =
  price :: real
  quantity :: real
  exchangeTimestamp :: int
  isBid :: bool

text \<open>
  Cell 3.3 filters on \<^verbatim>\<open>isBid\<close>; cell 3.4 drops that column and renames
  \<^verbatim>\<open>price\<close>/\<^verbatim>\<open>quantity\<close> to \<^verbatim>\<open>bid_price\<close>/\<^verbatim>\<open>bid_quantity\<close>
  (resp. \<^verbatim>\<open>ask_\<close>). The renaming shows in the computed rows below; the books
  themselves keep the row type.
\<close>

definition bid_book :: "trade list \<Rightarrow> trade list" where
  "bid_book trades = filter (\<lambda>r. isBid r = True) trades"

definition ask_book :: "trade list \<Rightarrow> trade list" where
  "ask_book trades = filter (\<lambda>r. isBid r = False) trades"

subsection \<open>Windows\<close>

text \<open>
  \<^verbatim>\<open>timestampWindow\<close> is the unordered partition of a book by timestamp.
  \<^verbatim>\<open>bid_window\<close> orders the partition by descending price,
  \<^verbatim>\<open>ask_window\<close> by ascending price; Spark leaves the order of equal prices
  open, the stable order is taken here. Both ordered windows have the frame
  \<^verbatim>\<open>rowsBetween(Window.unboundedPreceding, 0)\<close>: for the row at position
  \<open>i\<close> the frame is the rows at positions \<open>0..i\<close>.
\<close>

definition timestampWindow :: "int \<Rightarrow> trade list \<Rightarrow> trade list" where
  "timestampWindow t book = filter (\<lambda>r. exchangeTimestamp r = t) book"

definition bid_window :: "int \<Rightarrow> trade list \<Rightarrow> trade list" where
  "bid_window t book = sort_key (\<lambda>r. - price r) (timestampWindow t book)"

definition ask_window :: "int \<Rightarrow> trade list \<Rightarrow> trade list" where
  "ask_window t book = sort_key (\<lambda>r. price r) (timestampWindow t book)"

definition frame_sum :: "(trade \<Rightarrow> real) \<Rightarrow> trade list \<Rightarrow> nat \<Rightarrow> real" where
  "frame_sum f ladder i = sum_list (map f (take (Suc i) ladder))"

subsection \<open>Column expressions\<close>

definition spark_div :: "real \<Rightarrow> real \<Rightarrow> real option" where
  "spark_div a b = (if b = 0 then None else Some (a / b))"

text \<open>
  The \<^verbatim>\<open>slippage\<close> column, written identically for both books:
  \<^verbatim>\<open>when(order_amount - cum_cost < 0,
       ((order_amount - (cum_cost - (quantity * price))) / price) + (cum_quantity - quantity))
  .otherwise(0)\<close>
\<close>

definition slippage_expr :: "real \<Rightarrow> real \<Rightarrow> real \<Rightarrow> real \<Rightarrow> real \<Rightarrow> real option" where
  "slippage_expr order_amount p q cum_quantity cum_cost =
     (if order_amount - cum_cost < 0
      then map_option (\<lambda>x. x + (cum_quantity - q))
             (spark_div (order_amount - (cum_cost - (q * p))) p)
      else Some 0)"

text \<open>
  \<^verbatim>\<open>when(col('slippage') != 0, e)\<close> without \<^verbatim>\<open>otherwise\<close>: null when
  the slippage column is null or zero, else the value of \<open>e\<close>.
\<close>

definition when_slippage :: "real option \<Rightarrow> (real \<Rightarrow> real option) \<Rightarrow> real option" where
  "when_slippage s e = (case s of None \<Rightarrow> None | Some v \<Rightarrow> if v \<noteq> 0 then e v else None)"

subsection \<open>Cell 6.2: the bid book\<close>

record bid_row =
  bid_price :: real
  bid_quantity :: real
  bid_exchangeTimestamp :: int
  bid_order_amount :: real
  sell_order_price_1 :: real
  bid_desired_amount :: "real option"
  bid_cum_quantity :: real
  bid_cum_cost :: real
  bid_slippage :: "real option"
  sell_currency_slippage :: "real option"
  sell_dollar_slippage :: "real option"
  sell_percent_slippage :: "real option"

text \<open>
  The row computed for position \<open>i\<close> of a ladder, the rows of one timestamp in
  \<^verbatim>\<open>bid_window\<close> order. The columns \<^verbatim>\<open>order_amount\<close>,
  \<^verbatim>\<open>desired_amount\<close>, \<^verbatim>\<open>cum_quantity\<close>, \<^verbatim>\<open>cum_cost\<close> and
  \<^verbatim>\<open>slippage\<close> carry the prefix \<open>bid_\<close> here, since the ask book has
  columns of the same names.
\<close>

definition bid_calc :: "real \<Rightarrow> trade list \<Rightarrow> nat \<Rightarrow> bid_row" where
  "bid_calc order_amount ladder i =
     (let r = ladder ! i;
          best = Max (set (map price ladder));
          desired_amount = spark_div order_amount best;
          cum_quantity = frame_sum quantity ladder i;
          cum_cost = frame_sum (\<lambda>r. quantity r * price r) ladder i;
          slippage = slippage_expr order_amount (price r) (quantity r) cum_quantity cum_cost
      in \<lparr> bid_price = price r,
           bid_quantity = quantity r,
           bid_exchangeTimestamp = exchangeTimestamp r,
           bid_order_amount = order_amount,
           sell_order_price_1 = best,
           bid_desired_amount = desired_amount,
           bid_cum_quantity = cum_quantity,
           bid_cum_cost = cum_cost,
           bid_slippage = slippage,
           sell_currency_slippage =
             when_slippage slippage (\<lambda>s. map_option (\<lambda>d. (d - s) * - 1) desired_amount),
           sell_dollar_slippage =
             when_slippage slippage (\<lambda>s. Some ((order_amount - (s * best)) * - 1)),
           sell_percent_slippage =
             when_slippage slippage (\<lambda>s. map_option (\<lambda>d. ((d / s) - 1) * - 1) desired_amount) \<rparr>)"

definition bid_rows :: "real \<Rightarrow> trade list \<Rightarrow> bid_row list" where
  "bid_rows order_amount ladder = map (bid_calc order_amount ladder) [0..<length ladder]"

definition bid_book_calc :: "real \<Rightarrow> trade list \<Rightarrow> bid_row list" where
  "bid_book_calc order_amount book =
     concat (map (\<lambda>t. bid_rows order_amount (bid_window t book))
                 (remdups (map exchangeTimestamp book)))"

subsection \<open>Cell 6.3: the ask book\<close>

record ask_row =
  ask_price :: real
  ask_quantity :: real
  ask_exchangeTimestamp :: int
  ask_order_amount :: real
  buy_order_price_1 :: real
  ask_desired_amount :: "real option"
  ask_cum_quantity :: real
  ask_cum_cost :: real
  ask_slippage :: "real option"
  buy_currency_slippage :: "real option"
  buy_dollar_slippage :: "real option"
  buy_percent_slippage :: "real option"

definition ask_calc :: "real \<Rightarrow> trade list \<Rightarrow> nat \<Rightarrow> ask_row" where
  "ask_calc order_amount ladder i =
     (let r = ladder ! i;
          best = Min (set (map price ladder));
          desired_amount = spark_div order_amount best;
          cum_quantity = frame_sum quantity ladder i;
          cum_cost = frame_sum (\<lambda>r. quantity r * price r) ladder i;
          slippage = slippage_expr order_amount (price r) (quantity r) cum_quantity cum_cost
      in \<lparr> ask_price = price r,
           ask_quantity = quantity r,
           ask_exchangeTimestamp = exchangeTimestamp r,
           ask_order_amount = order_amount,
           buy_order_price_1 = best,
           ask_desired_amount = desired_amount,
           ask_cum_quantity = cum_quantity,
           ask_cum_cost = cum_cost,
           ask_slippage = slippage,
           buy_currency_slippage =
             when_slippage slippage (\<lambda>s. map_option (\<lambda>d. d - s) desired_amount),
           buy_dollar_slippage =
             when_slippage slippage (\<lambda>s. Some (order_amount - (s * best))),
           buy_percent_slippage =
             when_slippage slippage (\<lambda>s. map_option (\<lambda>d. (d / s) - 1) desired_amount) \<rparr>)"

definition ask_rows :: "real \<Rightarrow> trade list \<Rightarrow> ask_row list" where
  "ask_rows order_amount ladder = map (ask_calc order_amount ladder) [0..<length ladder]"

definition ask_book_calc :: "real \<Rightarrow> trade list \<Rightarrow> ask_row list" where
  "ask_book_calc order_amount book =
     concat (map (\<lambda>t. ask_rows order_amount (ask_window t book))
                 (remdups (map exchangeTimestamp book)))"

subsection \<open>Cell 6.4: join and aggregation\<close>

text \<open>
  \<^verbatim>\<open>bid_book.join(ask_book, on='exchangeTimestamp', how='inner')\<close> pairs every
  computed bid row with every computed ask row of the same timestamp.
\<close>

definition join_inner :: "bid_row list \<Rightarrow> ask_row list \<Rightarrow> (bid_row \<times> ask_row) list" where
  "join_inner bids asks =
     filter (\<lambda>(b, a). bid_exchangeTimestamp b = ask_exchangeTimestamp a) (List.product bids asks)"

text \<open>\<^verbatim>\<open>first(col, ignorenulls=True)\<close>: the first non-null value, null if there is none.\<close>

fun first_ignorenulls :: "'a option list \<Rightarrow> 'a option" where
  "first_ignorenulls [] = None"
| "first_ignorenulls (None # xs) = first_ignorenulls xs"
| "first_ignorenulls (Some v # xs) = Some v"

record orderbook_row =
  ob_exchangeTimestamp :: int
  ob_buy_currency_slippage :: "real option"
  ob_buy_dollar_slippage :: "real option"
  ob_buy_percent_slippage :: "real option"
  ob_sell_currency_slippage :: "real option"
  ob_sell_dollar_slippage :: "real option"
  ob_sell_percent_slippage :: "real option"

definition agg_group :: "(bid_row \<times> ask_row) list \<Rightarrow> int \<Rightarrow> orderbook_row" where
  "agg_group joined t =
     (let g = filter (\<lambda>(b, a). bid_exchangeTimestamp b = t) joined
      in \<lparr> ob_exchangeTimestamp = t,
           ob_buy_currency_slippage = first_ignorenulls (map (\<lambda>(b, a). buy_currency_slippage a) g),
           ob_buy_dollar_slippage = first_ignorenulls (map (\<lambda>(b, a). buy_dollar_slippage a) g),
           ob_buy_percent_slippage = first_ignorenulls (map (\<lambda>(b, a). buy_percent_slippage a) g),
           ob_sell_currency_slippage = first_ignorenulls (map (\<lambda>(b, a). sell_currency_slippage b) g),
           ob_sell_dollar_slippage = first_ignorenulls (map (\<lambda>(b, a). sell_dollar_slippage b) g),
           ob_sell_percent_slippage = first_ignorenulls (map (\<lambda>(b, a). sell_percent_slippage b) g) \<rparr>)"

definition orderbook :: "real \<Rightarrow> trade list \<Rightarrow> orderbook_row list" where
  "orderbook order_amount trades =
     (let joined = join_inner (bid_book_calc order_amount (bid_book trades))
                              (ask_book_calc order_amount (ask_book trades))
      in map (agg_group joined) (remdups (map (\<lambda>(b, a). bid_exchangeTimestamp b) joined)))"

text \<open>Cell 6.1: the notional the notebook runs with.\<close>

definition cost_basis :: real where
  "cost_basis = 1000000"

subsection \<open>The specification's vocabulary\<close>

text \<open>
  The specification takes the best price of a ladder to be the price of its row 0;
  the notebook takes the maximum (bids) or minimum (asks) over the partition.
\<close>

definition spec_best_price :: "trade list \<Rightarrow> real" where
  "spec_best_price ladder = price (ladder ! 0)"

text \<open>
  The specification's crossing test: row \<open>i\<close> is the clearing row iff
  \<open>cum_cost\<^sub>i \<ge> order_amount\<close> and \<open>cum_cost\<^bsub>i-1\<^esub> < order_amount\<close>, where the
  cumulative cost before row 0 is 0.
\<close>

definition spec_clearing_row :: "real \<Rightarrow> trade list \<Rightarrow> nat \<Rightarrow> bool" where
  "spec_clearing_row order_amount ladder i \<longleftrightarrow>
     frame_sum (\<lambda>r. quantity r * price r) ladder i \<ge> order_amount
     \<and> (if i = 0 then 0 else frame_sum (\<lambda>r. quantity r * price r) ladder (i - 1)) < order_amount"

text \<open>
  The specification's \<^verbatim>\<open>NoFill\<close> is the null the notebook leaves in the three
  metric columns; a row emits when all three metrics are present.
\<close>

definition ask_emits :: "ask_row \<Rightarrow> bool" where
  "ask_emits a \<longleftrightarrow> buy_currency_slippage a \<noteq> None \<and> buy_dollar_slippage a \<noteq> None
     \<and> buy_percent_slippage a \<noteq> None"

definition ask_nofill :: "ask_row \<Rightarrow> bool" where
  "ask_nofill a \<longleftrightarrow> buy_currency_slippage a = None \<and> buy_dollar_slippage a = None
     \<and> buy_percent_slippage a = None"

definition bid_emits :: "bid_row \<Rightarrow> bool" where
  "bid_emits b \<longleftrightarrow> sell_currency_slippage b \<noteq> None \<and> sell_dollar_slippage b \<noteq> None
     \<and> sell_percent_slippage b \<noteq> None"

definition bid_nofill :: "bid_row \<Rightarrow> bool" where
  "bid_nofill b \<longleftrightarrow> sell_currency_slippage b = None \<and> sell_dollar_slippage b = None
     \<and> sell_percent_slippage b = None"

subsection \<open>Levels and concrete ladders\<close>

definition level :: "int \<Rightarrow> bool \<Rightarrow> real \<Rightarrow> real \<Rightarrow> trade" where
  "level t b p q = \<lparr>price = p, quantity = q, exchangeTimestamp = t, isBid = b\<rparr>"

text \<open>
  The input row a computed row stands for: cell 3.4 dropped \<^verbatim>\<open>isBid\<close>, which
  is true on every row of the bid book and false on every row of the ask book.
\<close>

definition bid_level :: "bid_row \<Rightarrow> trade" where
  "bid_level b = level (bid_exchangeTimestamp b) True (bid_price b) (bid_quantity b)"

definition ask_level :: "ask_row \<Rightarrow> trade" where
  "ask_level a = level (ask_exchangeTimestamp a) False (ask_price a) (ask_quantity a)"

text \<open>The ask ladder of the specification's worked scenario, and its mirror on the bid side.\<close>

definition scenario_ladder :: "trade list" where
  "scenario_ladder =
     [level 0 False 1700.00 400, level 0 False 1700.50 400, level 0 False 1701.00 400]"

definition mirrored_ladder :: "trade list" where
  "mirrored_ladder =
     [level 0 True 1701.00 400, level 0 True 1700.50 400, level 0 True 1700.00 400]"

section \<open>Properties\<close>

lemmas eval_defs = level_def ask_rows_def ask_calc_def bid_rows_def bid_calc_def frame_sum_def
  slippage_expr_def when_slippage_def spark_div_def Let_def ask_emits_def ask_nofill_def
  bid_emits_def bid_nofill_def spec_clearing_row_def spec_best_price_def

subsection \<open>Rows and frames\<close>

lemma length_bid_rows: "length (bid_rows oa ladder) = length ladder"
  by (simp add: bid_rows_def)

lemma length_ask_rows: "length (ask_rows oa ladder) = length ladder"
  by (simp add: ask_rows_def)

lemma bid_rows_nth: "i < length ladder \<Longrightarrow> bid_rows oa ladder ! i = bid_calc oa ladder i"
  by (simp add: bid_rows_def)

lemma ask_rows_nth: "i < length ladder \<Longrightarrow> ask_rows oa ladder ! i = ask_calc oa ladder i"
  by (simp add: ask_rows_def)

lemma frame_sum_0: "ladder \<noteq> [] \<Longrightarrow> frame_sum f ladder 0 = f (ladder ! 0)"
  by (cases ladder) (simp_all add: frame_sum_def)

lemma frame_sum_Suc:
  "Suc i < length ladder \<Longrightarrow> frame_sum f ladder (Suc i) = frame_sum f ladder i + f (ladder ! Suc i)"
  by (simp add: frame_sum_def take_Suc_conv_app_nth [of "Suc i"])

lemma frame_sum_less_Suc:
  assumes "\<forall>r\<in>set ladder. 0 < f r" and "Suc i < length ladder"
  shows "frame_sum f ladder i < frame_sum f ladder (Suc i)"
proof -
  have "ladder ! Suc i \<in> set ladder" using assms(2) by simp
  then have "0 < f (ladder ! Suc i)" using assms(1) by blast
  then show ?thesis using assms(2) by (simp add: frame_sum_Suc)
qed

lemma frame_sum_strict_mono:
  assumes "\<forall>r\<in>set ladder. 0 < f r" and "i < j" and "j < length ladder"
  shows "frame_sum f ladder i < frame_sum f ladder j"
  using assms(2,3)
proof (induction j)
  case 0
  then show ?case by simp
next
  case (Suc j)
  have step: "frame_sum f ladder j < frame_sum f ladder (Suc j)"
    using assms(1) Suc.prems(2) by (rule frame_sum_less_Suc)
  show ?case
  proof (cases "i = j")
    case True
    then show ?thesis using step by simp
  next
    case False
    then have "i < j" using Suc.prems(1) by simp
    then have "frame_sum f ladder i < frame_sum f ladder j"
      using Suc.IH Suc.prems(2) by simp
    then show ?thesis using step by simp
  qed
qed

lemma ask_calc_fields:
  "ask_price (ask_calc oa ladder i) = price (ladder ! i)"
  "ask_quantity (ask_calc oa ladder i) = quantity (ladder ! i)"
  "ask_exchangeTimestamp (ask_calc oa ladder i) = exchangeTimestamp (ladder ! i)"
  "buy_order_price_1 (ask_calc oa ladder i) = Min (set (map price ladder))"
  "ask_desired_amount (ask_calc oa ladder i) = spark_div oa (Min (set (map price ladder)))"
  "ask_cum_quantity (ask_calc oa ladder i) = frame_sum quantity ladder i"
  "ask_cum_cost (ask_calc oa ladder i) = frame_sum (\<lambda>r. quantity r * price r) ladder i"
  "ask_slippage (ask_calc oa ladder i) =
     slippage_expr oa (price (ladder ! i)) (quantity (ladder ! i)) (frame_sum quantity ladder i)
       (frame_sum (\<lambda>r. quantity r * price r) ladder i)"
  by (simp_all add: ask_calc_def Let_def)

lemma bid_calc_fields:
  "bid_price (bid_calc oa ladder i) = price (ladder ! i)"
  "bid_quantity (bid_calc oa ladder i) = quantity (ladder ! i)"
  "bid_exchangeTimestamp (bid_calc oa ladder i) = exchangeTimestamp (ladder ! i)"
  "sell_order_price_1 (bid_calc oa ladder i) = Max (set (map price ladder))"
  "bid_desired_amount (bid_calc oa ladder i) = spark_div oa (Max (set (map price ladder)))"
  "bid_cum_quantity (bid_calc oa ladder i) = frame_sum quantity ladder i"
  "bid_cum_cost (bid_calc oa ladder i) = frame_sum (\<lambda>r. quantity r * price r) ladder i"
  "bid_slippage (bid_calc oa ladder i) =
     slippage_expr oa (price (ladder ! i)) (quantity (ladder ! i)) (frame_sum quantity ladder i)
       (frame_sum (\<lambda>r. quantity r * price r) ladder i)"
  by (simp_all add: bid_calc_def Let_def)

lemma ask_calc_metrics:
  "buy_currency_slippage (ask_calc oa ladder i) =
     when_slippage (ask_slippage (ask_calc oa ladder i))
       (\<lambda>s. map_option (\<lambda>d. d - s) (ask_desired_amount (ask_calc oa ladder i)))"
  "buy_dollar_slippage (ask_calc oa ladder i) =
     when_slippage (ask_slippage (ask_calc oa ladder i))
       (\<lambda>s. Some (oa - (s * buy_order_price_1 (ask_calc oa ladder i))))"
  "buy_percent_slippage (ask_calc oa ladder i) =
     when_slippage (ask_slippage (ask_calc oa ladder i))
       (\<lambda>s. map_option (\<lambda>d. (d / s) - 1) (ask_desired_amount (ask_calc oa ladder i)))"
  by (simp_all add: ask_calc_def Let_def)

lemma bid_calc_metrics:
  "sell_currency_slippage (bid_calc oa ladder i) =
     when_slippage (bid_slippage (bid_calc oa ladder i))
       (\<lambda>s. map_option (\<lambda>d. (d - s) * - 1) (bid_desired_amount (bid_calc oa ladder i)))"
  "sell_dollar_slippage (bid_calc oa ladder i) =
     when_slippage (bid_slippage (bid_calc oa ladder i))
       (\<lambda>s. Some ((oa - (s * sell_order_price_1 (bid_calc oa ladder i))) * - 1))"
  "sell_percent_slippage (bid_calc oa ladder i) =
     when_slippage (bid_slippage (bid_calc oa ladder i))
       (\<lambda>s. map_option (\<lambda>d. ((d / s) - 1) * - 1) (bid_desired_amount (bid_calc oa ladder i)))"
  by (simp_all add: bid_calc_def Let_def)

lemma frame_sum_pos:
  assumes "\<forall>r\<in>set ladder. 0 < f r" and "i < length ladder"
  shows "0 < frame_sum f ladder i"
proof -
  have ne: "ladder \<noteq> []" using assms(2) by auto
  have "ladder ! 0 \<in> set ladder" using assms(2) by (intro nth_mem) auto
  then have z: "0 < frame_sum f ladder 0" using assms(1) by (simp add: frame_sum_0 [OF ne])
  show ?thesis
  proof (cases i)
    case 0
    then show ?thesis using z by simp
  next
    case (Suc k)
    have "frame_sum f ladder 0 < frame_sum f ladder i"
      using assms Suc by (intro frame_sum_strict_mono) simp_all
    then show ?thesis using z by simp
  qed
qed

subsection \<open>Best prices\<close>

lemma Max_price_sorted_desc:
  assumes "ladder \<noteq> []" and "sorted_wrt (\<lambda>a b. b \<le> a) (map price ladder)"
  shows "Max (set (map price ladder)) = price (ladder ! 0)"
proof (cases ladder)
  case Nil
  then show ?thesis using assms(1) by simp
next
  case (Cons x xs)
  have "\<forall>y\<in>set (map price ladder). y \<le> price x"
    using assms(2) Cons by auto
  moreover have "price x \<in> set (map price ladder)" using Cons by simp
  ultimately have "Max (set (map price ladder)) = price x"
    by (intro Max_eqI) auto
  then show ?thesis using Cons by simp
qed

lemma Min_price_sorted_asc:
  assumes "ladder \<noteq> []" and "sorted (map price ladder)"
  shows "Min (set (map price ladder)) = price (ladder ! 0)"
proof (cases ladder)
  case Nil
  then show ?thesis using assms(1) by simp
next
  case (Cons x xs)
  have "\<forall>y\<in>set (map price ladder). price x \<le> y"
    using assms(2) Cons by auto
  moreover have "price x \<in> set (map price ladder)" using Cons by simp
  ultimately have "Min (set (map price ladder)) = price x"
    by (intro Min_eqI) auto
  then show ?thesis using Cons by simp
qed

lemma bid_window_sorted: "sorted_wrt (\<lambda>a b. b \<le> a) (map price (bid_window t book))"
proof -
  have "sorted (map (\<lambda>r. - price r) (bid_window t book))"
    unfolding bid_window_def by (rule sorted_sort_key)
  then have "sorted_wrt (\<lambda>a b. - price a \<le> - price b) (bid_window t book)"
    by (simp add: sorted_map)
  then show ?thesis by (simp add: sorted_wrt_map)
qed

lemma ask_window_sorted: "sorted (map price (ask_window t book))"
  unfolding ask_window_def by (rule sorted_sort_key)

lemma Min_price_pos:
  assumes "\<forall>r\<in>set ladder. 0 < price r" and "ladder \<noteq> []"
  shows "0 < Min (set (map price ladder))"
proof -
  have "Min (set (map price ladder)) \<in> set (map price ladder)"
    using assms(2) by (intro Min_in) simp_all
  then show ?thesis using assms(1) by auto
qed

lemma Max_price_pos:
  assumes "\<forall>r\<in>set ladder. 0 < price r" and "ladder \<noteq> []"
  shows "0 < Max (set (map price ladder))"
proof -
  have "Max (set (map price ladder)) \<in> set (map price ladder)"
    using assms(2) by (intro Max_in) simp_all
  then show ?thesis using assms(1) by auto
qed

subsection \<open>The slippage column\<close>



lemma slippage_expr_below: "cc \<le> oa \<Longrightarrow> slippage_expr oa p q cq cc = Some 0"
  by (simp add: slippage_expr_def)

lemma slippage_expr_above:
  "oa < cc \<Longrightarrow> p \<noteq> 0 \<Longrightarrow> slippage_expr oa p q cq cc = Some ((oa - (cc - q * p)) / p + (cq - q))"
  by (simp add: slippage_expr_def spark_div_def)


text \<open>Rows whose metrics are all null, and rows whose metrics are all present.\<close>

lemma when_slippage_zero: "when_slippage (Some 0) e = None"
  by (simp add: when_slippage_def)

lemma ask_nofill_zero: "ask_slippage (ask_calc oa ladder i) = Some 0 \<Longrightarrow> ask_nofill (ask_calc oa ladder i)"
  unfolding ask_nofill_def ask_calc_metrics by (simp add: when_slippage_zero)

lemma bid_nofill_zero: "bid_slippage (bid_calc oa ladder i) = Some 0 \<Longrightarrow> bid_nofill (bid_calc oa ladder i)"
  unfolding bid_nofill_def bid_calc_metrics by (simp add: when_slippage_zero)

lemma ask_emits_iff:
  assumes "Min (set (map price ladder)) \<noteq> 0" and "ask_slippage (ask_calc oa ladder i) = Some Q"
  shows "ask_emits (ask_calc oa ladder i) \<longleftrightarrow> Q \<noteq> 0"
    and "ask_nofill (ask_calc oa ladder i) \<longleftrightarrow> Q = 0"
  using assms unfolding ask_emits_def ask_nofill_def ask_calc_metrics
  by (simp_all add: ask_calc_fields(5) when_slippage_def spark_div_def)

lemma bid_emits_iff:
  assumes "Max (set (map price ladder)) \<noteq> 0" and "bid_slippage (bid_calc oa ladder i) = Some Q"
  shows "bid_emits (bid_calc oa ladder i) \<longleftrightarrow> Q \<noteq> 0"
    and "bid_nofill (bid_calc oa ladder i) \<longleftrightarrow> Q = 0"
  using assms unfolding bid_emits_def bid_nofill_def bid_calc_metrics
  by (simp_all add: bid_calc_fields(5) when_slippage_def spark_div_def)

text \<open>
  The slippage quantity at the first row whose cumulative cost exceeds the notional is
  positive: the rows before it cost at most the notional.
\<close>

lemma crossing_quantity_pos:
  assumes pos: "\<forall>r\<in>set ladder. 0 < price r \<and> 0 < quantity r" and oa: "0 < oa"
    and i: "i < length ladder"
    and before: "\<forall>j<i. frame_sum (\<lambda>r. quantity r * price r) ladder j \<le> oa"
  shows "0 < (oa - (frame_sum (\<lambda>r. quantity r * price r) ladder i
                     - quantity (ladder ! i) * price (ladder ! i))) / price (ladder ! i)
             + (frame_sum quantity ladder i - quantity (ladder ! i))"
proof (cases i)
  case 0
  have "ladder ! 0 \<in> set ladder" using i by (intro nth_mem) auto
  then have "0 < price (ladder ! 0)" using pos by blast
  then show ?thesis using 0 i oa by (simp add: frame_sum_0)
next
  case (Suc k)
  have k: "k < length ladder" using i Suc by simp
  have "ladder ! i \<in> set ladder" using i by simp
  then have p: "0 < price (ladder ! i)" using pos by blast
  have q: "\<forall>r\<in>set ladder. 0 < quantity r" using pos by blast
  have cq: "0 < frame_sum quantity ladder k" using q k by (rule frame_sum_pos)
  have cc: "frame_sum (\<lambda>r. quantity r * price r) ladder k \<le> oa" using before Suc by simp
  have "0 \<le> (oa - frame_sum (\<lambda>r. quantity r * price r) ladder k) / price (ladder ! i)"
    using cc p by simp
  then show ?thesis using cq i Suc by (simp add: frame_sum_Suc)
qed

subsection \<open>Monotone running sums\<close>

text \<open>
  Claim C8. On a ladder whose levels all have positive price and positive quantity, the
  columns \<^verbatim>\<open>cum_quantity\<close> and \<^verbatim>\<open>cum_cost\<close> of both books increase
  strictly from any row to any later row of the window order; in particular they are
  non-decreasing.
\<close>

theorem cum_sums_strictly_increasing:
  assumes "\<forall>r\<in>set ladder. 0 < price r \<and> 0 < quantity r" and "i < j" and "j < length ladder"
  shows "bid_cum_quantity (bid_rows oa ladder ! i) < bid_cum_quantity (bid_rows oa ladder ! j)
       \<and> bid_cum_cost (bid_rows oa ladder ! i) < bid_cum_cost (bid_rows oa ladder ! j)
       \<and> ask_cum_quantity (ask_rows oa ladder ! i) < ask_cum_quantity (ask_rows oa ladder ! j)
       \<and> ask_cum_cost (ask_rows oa ladder ! i) < ask_cum_cost (ask_rows oa ladder ! j)"
proof -
  have i: "i < length ladder" using assms(2,3) by simp
  have q: "\<forall>r\<in>set ladder. 0 < quantity r" using assms(1) by blast
  have c: "\<forall>r\<in>set ladder. 0 < quantity r * price r" using assms(1) by simp
  have "frame_sum quantity ladder i < frame_sum quantity ladder j"
    using q assms(2,3) by (rule frame_sum_strict_mono)
  moreover have "frame_sum (\<lambda>r. quantity r * price r) ladder i
      < frame_sum (\<lambda>r. quantity r * price r) ladder j"
    using c assms(2,3) by (rule frame_sum_strict_mono)
  ultimately show ?thesis
    using i assms(3) by (simp add: bid_rows_nth ask_rows_nth bid_calc_def ask_calc_def Let_def)
qed

theorem cum_sums_strictly_increasing_witness:
  "list_all (\<lambda>r. 0 < price r \<and> 0 < quantity r) scenario_ladder \<and> (0::nat) < 2
   \<and> 2 < length scenario_ladder
   \<and> ask_cum_cost (ask_rows 1000000 scenario_ladder ! 0) = 680000
   \<and> ask_cum_cost (ask_rows 1000000 scenario_ladder ! 2) = 2040600
   \<and> ask_cum_cost (ask_rows 1000000 scenario_ladder ! 0)
       < ask_cum_cost (ask_rows 1000000 scenario_ladder ! 2)"
  using cum_sums_strictly_increasing [of scenario_ladder 0 2 1000000]
  by (simp add: scenario_ladder_def eval_defs)

subsection \<open>Top of the book\<close>

text \<open>
  Claim C7. On a ladder in window order the notebook's top-of-book price is the price of
  row 0: for prices sorted descending, \<^verbatim>\<open>sell_order_price_1\<close>, the maximum of
  the bid prices of the partition, equals the specification's best price and the
  \<^verbatim>\<open>bid_price\<close> of the first computed row, at every row \<open>i\<close>; for prices
  sorted ascending the same holds of \<^verbatim>\<open>buy_order_price_1\<close>, the minimum of the
  ask prices.
\<close>

theorem best_price_is_row_0:
  assumes "i < length ladder"
  shows "(sorted_wrt (\<lambda>x y. y \<le> x) (map price ladder)
           \<longrightarrow> sell_order_price_1 (bid_rows oa ladder ! i) = spec_best_price ladder
             \<and> sell_order_price_1 (bid_rows oa ladder ! i) = bid_price (bid_rows oa ladder ! 0))
       \<and> (sorted (map price ladder)
           \<longrightarrow> buy_order_price_1 (ask_rows oa ladder ! i) = spec_best_price ladder
             \<and> buy_order_price_1 (ask_rows oa ladder ! i) = ask_price (ask_rows oa ladder ! 0))"
proof -
  have ne: "ladder \<noteq> []" and z: "0 < length ladder" using assms by auto
  have bid: "sell_order_price_1 (bid_rows oa ladder ! i) = price (ladder ! 0)"
    if "sorted_wrt (\<lambda>x y. y \<le> x) (map price ladder)"
    using Max_price_sorted_desc [OF ne that] assms by (simp add: bid_rows_nth bid_calc_fields)
  have ask: "buy_order_price_1 (ask_rows oa ladder ! i) = price (ladder ! 0)"
    if "sorted (map price ladder)"
    using Min_price_sorted_asc [OF ne that] assms by (simp add: ask_rows_nth ask_calc_fields)
  have "bid_price (bid_rows oa ladder ! 0) = price (ladder ! 0)"
    "ask_price (ask_rows oa ladder ! 0) = price (ladder ! 0)"
    using z by (simp_all add: bid_rows_nth ask_rows_nth bid_calc_fields ask_calc_fields)
  then show ?thesis
    using bid ask by (simp add: spec_best_price_def)
qed

theorem best_price_is_row_0_witness:
  "(2::nat) < length scenario_ladder
   \<and> sorted (map price scenario_ladder)
   \<and> spec_best_price scenario_ladder = 1700
   \<and> buy_order_price_1 (ask_rows 1000000 scenario_ladder ! 2) = spec_best_price scenario_ladder
   \<and> sorted_wrt (\<lambda>x y. y \<le> x) (map price mirrored_ladder)
   \<and> spec_best_price mirrored_ladder = 1701
   \<and> sell_order_price_1 (bid_rows 1000000 mirrored_ladder ! 2) = spec_best_price mirrored_ladder"
  using best_price_is_row_0 [of 2 scenario_ladder 1000000]
        best_price_is_row_0 [of 2 mirrored_ladder 1000000]
  by (simp add: scenario_ladder_def mirrored_ladder_def level_def spec_best_price_def)

text \<open>
  The ladders the notebook builds are in that order, so on them the two readings of the
  best price agree without any assumption.
\<close>

lemma best_price_of_windows:
  assumes "i < length (timestampWindow t book)"
  shows "sell_order_price_1 (bid_rows oa (bid_window t book) ! i)
           = spec_best_price (bid_window t book)
       \<and> buy_order_price_1 (ask_rows oa (ask_window t book) ! i)
           = spec_best_price (ask_window t book)"
proof -
  have b: "i < length (bid_window t book)" and a: "i < length (ask_window t book)"
    using assms by (simp_all add: bid_window_def ask_window_def)
  have neb: "bid_window t book \<noteq> []" and nea: "ask_window t book \<noteq> []" using a b by auto
  have "Max (set (map price (bid_window t book))) = price (bid_window t book ! 0)"
    using neb bid_window_sorted by (rule Max_price_sorted_desc)
  moreover have "Min (set (map price (ask_window t book))) = price (ask_window t book ! 0)"
    using nea ask_window_sorted by (rule Min_price_sorted_asc)
  ultimately show ?thesis
    using a b by (simp add: bid_rows_nth ask_rows_nth bid_calc_fields ask_calc_fields
        spec_best_price_def)
qed

subsection \<open>The three metrics\<close>







subsection \<open>A first row that alone exceeds the notional\<close>



subsection \<open>Which rows carry metrics\<close>

text \<open>
  Claim C1, as the notebook has it. The claim says that exactly one row, the one passing
  the specification's crossing test, carries metrics. The notebook's guard is
  \<^verbatim>\<open>order_amount - cum_cost < 0\<close> alone and does not look at the previous row,
  so rows after the crossing carry metrics as well. On a ladder with positive prices and
  quantities and a positive notional: a row whose cumulative cost is at most the notional
  carries null metrics; a row carries all three metrics exactly when its cumulative cost
  strictly exceeds the notional and its slippage column is not 0, and otherwise carries
  none of them; the first row whose cumulative cost strictly exceeds the notional always
  carries them.
\<close>

theorem nonnull_rows:
  assumes "\<forall>r\<in>set ladder. 0 < price r \<and> 0 < quantity r" and "0 < oa" and "i < length ladder"
    and "a = ask_rows oa ladder ! i" and "b = bid_rows oa ladder ! i"
  shows "(ask_cum_cost a \<le> oa \<longrightarrow> ask_nofill a)
       \<and> (ask_emits a \<longleftrightarrow> oa < ask_cum_cost a \<and> ask_slippage a \<noteq> Some 0)
       \<and> (ask_nofill a \<longleftrightarrow> \<not> ask_emits a)
       \<and> (oa < ask_cum_cost a \<and> (\<forall>j<i. ask_cum_cost (ask_rows oa ladder ! j) \<le> oa)
            \<longrightarrow> ask_emits a)
       \<and> (bid_cum_cost b \<le> oa \<longrightarrow> bid_nofill b)
       \<and> (bid_emits b \<longleftrightarrow> oa < bid_cum_cost b \<and> bid_slippage b \<noteq> Some 0)
       \<and> (bid_nofill b \<longleftrightarrow> \<not> bid_emits b)
       \<and> (oa < bid_cum_cost b \<and> (\<forall>j<i. bid_cum_cost (bid_rows oa ladder ! j) \<le> oa)
            \<longrightarrow> bid_emits b)"
proof -
  define cc where "cc = frame_sum (\<lambda>r. quantity r * price r) ladder i"
  define Q where "Q = (oa - (cc - quantity (ladder ! i) * price (ladder ! i))) / price (ladder ! i)
             + (frame_sum quantity ladder i - quantity (ladder ! i))"
  have ne: "ladder \<noteq> []" using assms(3) by auto
  have a: "a = ask_calc oa ladder i" and b: "b = bid_calc oa ladder i"
    using assms(3,4,5) by (simp_all add: ask_rows_nth bid_rows_nth)
  have prices: "\<forall>r\<in>set ladder. 0 < price r" using assms(1) by blast
  have mn: "Min (set (map price ladder)) \<noteq> 0" using Min_price_pos [OF prices ne] by simp
  have mx: "Max (set (map price ladder)) \<noteq> 0" using Max_price_pos [OF prices ne] by simp
  have "ladder ! i \<in> set ladder" using assms(3) by simp
  then have p: "price (ladder ! i) \<noteq> 0" using prices by fastforce
  have acc: "ask_cum_cost a = cc" and bcc: "bid_cum_cost b = cc"
    by (simp_all add: a b ask_calc_fields bid_calc_fields cc_def)
  have low: "ask_slippage a = Some 0 \<and> bid_slippage b = Some 0" if "cc \<le> oa"
    using that by (simp add: a b ask_calc_fields bid_calc_fields cc_def slippage_expr_below)
  have high: "ask_slippage a = Some Q \<and> bid_slippage b = Some Q" if "oa < cc"
    using that p unfolding Q_def cc_def a b ask_calc_fields bid_calc_fields
    by (simp add: slippage_expr_above)
  have first: "Q \<noteq> 0" if "\<forall>j<i. frame_sum (\<lambda>r. quantity r * price r) ladder j \<le> oa"
    using crossing_quantity_pos [OF assms(1,2,3) that] by (simp add: Q_def cc_def)
  have rows: "ask_cum_cost (ask_rows oa ladder ! j) = frame_sum (\<lambda>r. quantity r * price r) ladder j"
    "bid_cum_cost (bid_rows oa ladder ! j) = frame_sum (\<lambda>r. quantity r * price r) ladder j"
    if "j < i" for j
    using that assms(3) by (simp_all add: ask_rows_nth bid_rows_nth ask_calc_fields bid_calc_fields)
  show ?thesis
  proof (cases "cc \<le> oa")
    case True
    have s: "ask_slippage (ask_calc oa ladder i) = Some 0"
      "bid_slippage (bid_calc oa ladder i) = Some 0"
      using low [OF True] by (simp_all add: a b)
    show ?thesis
      using True acc bcc ask_emits_iff [OF mn s(1)] bid_emits_iff [OF mx s(2)]
      by (simp add: a b)
  next
    case False
    then have gt: "oa < cc" by simp
    have s: "ask_slippage (ask_calc oa ladder i) = Some Q"
      "bid_slippage (bid_calc oa ladder i) = Some Q"
      using high [OF gt] by (simp_all add: a b)
    have "(\<forall>j<i. ask_cum_cost (ask_rows oa ladder ! j) \<le> oa) \<longrightarrow> Q \<noteq> 0"
      "(\<forall>j<i. bid_cum_cost (bid_rows oa ladder ! j) \<le> oa) \<longrightarrow> Q \<noteq> 0"
      using first rows by simp_all
    then show ?thesis
      using gt acc bcc s ask_emits_iff [OF mn s(1)] bid_emits_iff [OF mx s(2)]
      by (simp add: a b)
  qed
qed

theorem nonnull_rows_witness:
  "list_all (\<lambda>r. 0 < price r \<and> 0 < quantity r) scenario_ladder
   \<and> list_all (\<lambda>r. 0 < price r \<and> 0 < quantity r) mirrored_ladder
   \<and> (0::real) < 1000000 \<and> (1::nat) < length scenario_ladder \<and> (1::nat) < length mirrored_ladder
   \<and> ask_cum_cost (ask_rows 1000000 scenario_ladder ! 0) \<le> 1000000
   \<and> ask_nofill (ask_rows 1000000 scenario_ladder ! 0)
   \<and> 1000000 < ask_cum_cost (ask_rows 1000000 scenario_ladder ! 1)
   \<and> ask_emits (ask_rows 1000000 scenario_ladder ! 1)
   \<and> bid_cum_cost (bid_rows 1000000 mirrored_ladder ! 0) \<le> 1000000
   \<and> bid_nofill (bid_rows 1000000 mirrored_ladder ! 0)
   \<and> 1000000 < bid_cum_cost (bid_rows 1000000 mirrored_ladder ! 1)
   \<and> bid_emits (bid_rows 1000000 mirrored_ladder ! 1)"
  using nonnull_rows [of scenario_ladder 1000000 0 "ask_rows 1000000 scenario_ladder ! 0"
      "bid_rows 1000000 scenario_ladder ! 0"]
    nonnull_rows [of scenario_ladder 1000000 1 "ask_rows 1000000 scenario_ladder ! 1"
      "bid_rows 1000000 scenario_ladder ! 1"]
    nonnull_rows [of mirrored_ladder 1000000 0 "ask_rows 1000000 mirrored_ladder ! 0"
      "bid_rows 1000000 mirrored_ladder ! 0"]
    nonnull_rows [of mirrored_ladder 1000000 1 "ask_rows 1000000 mirrored_ladder ! 1"
      "bid_rows 1000000 mirrored_ladder ! 1"]
  by (simp add: scenario_ladder_def mirrored_ladder_def eval_defs)

text \<open>
  On the scenario ladder and on its mirror the total cost reaches the notional, row 1
  passes the specification's crossing test and row 2 does not, yet row 2 carries all
  three metrics: more than one row carries a value.
\<close>

theorem later_row_emits_counterexample:
  "1000000 \<le> ask_cum_cost (ask_rows 1000000 scenario_ladder ! 2)
   \<and> spec_clearing_row 1000000 scenario_ladder 1
   \<and> \<not> spec_clearing_row 1000000 scenario_ladder 2
   \<and> ask_emits (ask_rows 1000000 scenario_ladder ! 1)
   \<and> ask_emits (ask_rows 1000000 scenario_ladder ! 2)
   \<and> \<not> ask_nofill (ask_rows 1000000 scenario_ladder ! 2)
   \<and> buy_percent_slippage (ask_rows 1000000 scenario_ladder ! 2) = Some (- (1 / 85051))
   \<and> spec_clearing_row 1000000 mirrored_ladder 1
   \<and> \<not> spec_clearing_row 1000000 mirrored_ladder 2
   \<and> bid_emits (bid_rows 1000000 mirrored_ladder ! 1)
   \<and> bid_emits (bid_rows 1000000 mirrored_ladder ! 2)
   \<and> \<not> bid_nofill (bid_rows 1000000 mirrored_ladder ! 2)
   \<and> sell_percent_slippage (bid_rows 1000000 mirrored_ladder ! 2) = Some (- (103 / 8499897))"
  by (simp add: scenario_ladder_def mirrored_ladder_def eval_defs)

subsection \<open>A cumulative cost equal to the notional\<close>




subsection \<open>The worked scenario\<close>

text \<open>
  Claim C5, as the notebook computes it. On the ask ladder
  \<open>[(1700.00, 400), (1700.50, 400), (1701.00, 400)]\<close> with a notional of 1,000,000 the
  cumulative costs of rows 0 and 1 are 680,000 and 1,360,200, row 1 passes the crossing
  test, the metrics of row 0 are null, the remaining notional is 320,000, the slippage
  column of row 1 holds \<open>Q = 400 + 320000 / 1700.5\<close>, \<^verbatim>\<open>desired_amount\<close> is
  \<open>1000000 / 1700\<close>, and the buy percent slippage is \<open>desired_amount / Q - 1\<close>; the
  first non-null percent slippage of the ladder is that value. Its value is
  \<open>8 / 85017\<close>, between 0.0000940 and 0.0000942, not the 0.0000841 of the claim.
\<close>

theorem scenario_row_1:
  "ask_cum_cost (ask_rows cost_basis scenario_ladder ! 0) = 680000
   \<and> ask_cum_cost (ask_rows cost_basis scenario_ladder ! 1) = 1360200
   \<and> spec_clearing_row cost_basis scenario_ladder 1
   \<and> ask_nofill (ask_rows cost_basis scenario_ladder ! 0)
   \<and> cost_basis - ask_cum_cost (ask_rows cost_basis scenario_ladder ! 0) = 320000
   \<and> ask_slippage (ask_rows cost_basis scenario_ladder ! 1) = Some (400 + 320000 / 1700.5)
   \<and> ask_desired_amount (ask_rows cost_basis scenario_ladder ! 1) = Some (1000000 / 1700)
   \<and> buy_percent_slippage (ask_rows cost_basis scenario_ladder ! 1)
       = Some (1000000 / 1700 / (400 + 320000 / 1700.5) - 1)
   \<and> first_ignorenulls (map buy_percent_slippage (ask_rows cost_basis scenario_ladder))
       = Some (1000000 / 1700 / (400 + 320000 / 1700.5) - 1)
   \<and> (1000000 / 1700 / (400 + 320000 / 1700.5) - 1 :: real) = 8 / 85017
   \<and> (0.0000940 :: real) < 8 / 85017
   \<and> (8 / 85017 :: real) < 0.0000942"
  by (simp add: cost_basis_def scenario_ladder_def eval_defs)

text \<open>
  The percent slippage of row 1 is more than 0.0000099 above 0.0000841: the figure of
  the claim is not an approximation of it.
\<close>

theorem scenario_percent_counterexample:
  "buy_percent_slippage (ask_rows cost_basis scenario_ladder ! 1) = Some (8 / 85017)
   \<and> (0.0000841 :: real) + 0.0000099 < 8 / 85017"
  by (simp add: cost_basis_def scenario_ladder_def eval_defs)

subsection \<open>Every level enters a ladder\<close>

lemma sum_list_single_key:
  "distinct ts \<Longrightarrow> (\<Sum>t\<leftarrow>ts. if k = t then m else {#}) = (if k \<in> set ts then m else {#})"
  by (induction ts) auto

lemma mset_partitions_aux:
  assumes "distinct ts" and "f ` set xs \<subseteq> set ts"
  shows "(\<Sum>t\<leftarrow>ts. mset (filter (\<lambda>r. f r = t) xs)) = mset xs"
  using assms(2)
proof (induction xs)
  case Nil
  then show ?case by (induction ts) simp_all
next
  case (Cons x xs)
  have "(\<Sum>t\<leftarrow>ts. mset (filter (\<lambda>r. f r = t) (x # xs)))
      = (\<Sum>t\<leftarrow>ts. (if f x = t then {#x#} else {#}) + mset (filter (\<lambda>r. f r = t) xs))"
    by (intro arg_cong [where f = sum_list] map_cong) auto
  also have "\<dots> = (\<Sum>t\<leftarrow>ts. if f x = t then {#x#} else {#})
      + (\<Sum>t\<leftarrow>ts. mset (filter (\<lambda>r. f r = t) xs))"
    by (simp add: sum_list_addf)
  also have "\<dots> = {#x#} + mset xs"
    using Cons assms(1) by (simp add: sum_list_single_key)
  finally show ?case by simp
qed

lemma mset_partitions:
  "mset (concat (map (\<lambda>t. filter (\<lambda>r. f r = t) xs) (remdups (map f xs)))) = mset xs"
  using mset_partitions_aux [of "remdups (map f xs)" f xs]
  by (simp add: mset_concat comp_def)

lemma bid_level_rows:
  assumes "\<forall>r\<in>set ladder. isBid r"
  shows "map bid_level (bid_rows oa ladder) = ladder"
proof (rule nth_equalityI)
  show "length (map bid_level (bid_rows oa ladder)) = length ladder"
    by (simp add: length_bid_rows)
next
  fix i assume "i < length (map bid_level (bid_rows oa ladder))"
  then have i: "i < length ladder" by (simp add: length_bid_rows)
  then have "isBid (ladder ! i)" using assms by simp
  then have "level (exchangeTimestamp (ladder ! i)) True (price (ladder ! i)) (quantity (ladder ! i))
      = ladder ! i"
    by (simp add: level_def)
  then show "map bid_level (bid_rows oa ladder) ! i = ladder ! i"
    using i by (simp add: length_bid_rows bid_rows_nth bid_level_def bid_calc_fields)
qed

lemma ask_level_rows:
  assumes "\<forall>r\<in>set ladder. \<not> isBid r"
  shows "map ask_level (ask_rows oa ladder) = ladder"
proof (rule nth_equalityI)
  show "length (map ask_level (ask_rows oa ladder)) = length ladder"
    by (simp add: length_ask_rows)
next
  fix i assume "i < length (map ask_level (ask_rows oa ladder))"
  then have i: "i < length ladder" by (simp add: length_ask_rows)
  then have "\<not> isBid (ladder ! i)" using assms by simp
  then have "level (exchangeTimestamp (ladder ! i)) False (price (ladder ! i)) (quantity (ladder ! i))
      = ladder ! i"
    by (simp add: level_def)
  then show "map ask_level (ask_rows oa ladder) ! i = ladder ! i"
    using i by (simp add: length_ask_rows ask_rows_nth ask_level_def ask_calc_fields)
qed

lemma set_bid_window: "set (bid_window t book) = {r \<in> set book. exchangeTimestamp r = t}"
  by (auto simp: bid_window_def timestampWindow_def)

lemma set_ask_window: "set (ask_window t book) = {r \<in> set book. exchangeTimestamp r = t}"
  by (auto simp: ask_window_def timestampWindow_def)

lemma mset_bid_book_calc:
  assumes "\<forall>r\<in>set book. isBid r"
  shows "mset (map bid_level (bid_book_calc oa book)) = mset book"
proof -
  have "map bid_level (bid_book_calc oa book)
      = concat (map (\<lambda>t. bid_window t book) (remdups (map exchangeTimestamp book)))"
    using assms by (simp add: bid_book_calc_def map_concat comp_def bid_level_rows set_bid_window)
  then have "mset (map bid_level (bid_book_calc oa book))
      = (\<Sum>t\<leftarrow>remdups (map exchangeTimestamp book). mset (bid_window t book))"
    by (simp only: mset_concat map_map comp_def)
  also have "\<dots> = mset (concat (map (\<lambda>t. filter (\<lambda>r. exchangeTimestamp r = t) book)
      (remdups (map exchangeTimestamp book))))"
    by (simp add: mset_concat comp_def bid_window_def timestampWindow_def)
  finally show ?thesis by (simp only: mset_partitions)
qed

lemma mset_ask_book_calc:
  assumes "\<forall>r\<in>set book. \<not> isBid r"
  shows "mset (map ask_level (ask_book_calc oa book)) = mset book"
proof -
  have "map ask_level (ask_book_calc oa book)
      = concat (map (\<lambda>t. ask_window t book) (remdups (map exchangeTimestamp book)))"
    using assms by (simp add: ask_book_calc_def map_concat comp_def ask_level_rows set_ask_window)
  then have "mset (map ask_level (ask_book_calc oa book))
      = (\<Sum>t\<leftarrow>remdups (map exchangeTimestamp book). mset (ask_window t book))"
    by (simp only: mset_concat map_map comp_def)
  also have "\<dots> = mset (concat (map (\<lambda>t. filter (\<lambda>r. exchangeTimestamp r = t) book)
      (remdups (map exchangeTimestamp book))))"
    by (simp add: mset_concat comp_def ask_window_def timestampWindow_def)
  finally show ?thesis by (simp only: mset_partitions)
qed

text \<open>
  Claim C6, as the notebook has it. The claim says that a level with a non-positive price
  or quantity is rejected with \<^verbatim>\<open>MalformedLevel\<close>. The notebook validates
  nothing and has no failure: whatever their prices and quantities, the input rows are
  exactly the rows the two books compute on, each one once, bids in the bid book and
  asks in the ask book.
\<close>

theorem every_level_is_walked:
  "mset (map bid_level (bid_book_calc oa (bid_book trades)))
     + mset (map ask_level (ask_book_calc oa (ask_book trades))) = mset trades"
proof -
  have "mset (map bid_level (bid_book_calc oa (bid_book trades))) = mset (bid_book trades)"
    by (rule mset_bid_book_calc) (simp add: bid_book_def)
  moreover have "mset (map ask_level (ask_book_calc oa (ask_book trades))) = mset (ask_book trades)"
    by (rule mset_ask_book_calc) (simp add: ask_book_def)
  ultimately show ?thesis
    by (simp add: bid_book_def ask_book_def)
qed

text \<open>
  Two bid levels at one timestamp, one with price \<open>-1\<close> and quantity 0, one with price 0
  and quantity \<open>-3\<close>: neither is rejected, both are rows of the ladder and are walked,
  with a top-of-book price of 0 and cumulative quantity \<open>-3\<close>.
\<close>

theorem malformed_level_counterexample:
  "bid_window 7 (bid_book [level 7 True (- 1) 0, level 7 True 0 (- 3)])
     = [level 7 True 0 (- 3), level 7 True (- 1) 0]
   \<and> map bid_level (bid_book_calc 10 (bid_book [level 7 True (- 1) 0, level 7 True 0 (- 3)]))
     = [level 7 True 0 (- 3), level 7 True (- 1) 0]
   \<and> map sell_order_price_1 (bid_book_calc 10 (bid_book [level 7 True (- 1) 0, level 7 True 0 (- 3)]))
     = [0, 0]
   \<and> map bid_cum_quantity (bid_book_calc 10 (bid_book [level 7 True (- 1) 0, level 7 True 0 (- 3)]))
     = [- 3, - 3]"
  by (simp add: bid_book_calc_def bid_book_def bid_window_def timestampWindow_def bid_level_def
      eval_defs)

subsection \<open>The combined output\<close>

lemma first_ignorenulls_None: "(\<forall>x\<in>set xs. x = None) \<Longrightarrow> first_ignorenulls xs = None"
  by (induction xs rule: first_ignorenulls.induct) simp_all

lemma in_bid_book_calc:
  "b \<in> set (bid_book_calc oa book) \<longleftrightarrow>
     (\<exists>r\<in>set book. \<exists>i<length (bid_window (exchangeTimestamp r) book).
        b = bid_calc oa (bid_window (exchangeTimestamp r) book) i)"
  by (fastforce simp: bid_book_calc_def bid_rows_def image_iff)

lemma in_ask_book_calc:
  "a \<in> set (ask_book_calc oa book) \<longleftrightarrow>
     (\<exists>r\<in>set book. \<exists>i<length (ask_window (exchangeTimestamp r) book).
        a = ask_calc oa (ask_window (exchangeTimestamp r) book) i)"
  by (fastforce simp: ask_book_calc_def ask_rows_def image_iff)

lemma bid_window_nth_timestamp:
  assumes "i < length (bid_window t book)"
  shows "exchangeTimestamp (bid_window t book ! i) = t"
proof -
  have "bid_window t book ! i \<in> set (bid_window t book)" using assms by simp
  then show ?thesis by (simp add: set_bid_window)
qed

lemma ask_window_nth_timestamp:
  assumes "i < length (ask_window t book)"
  shows "exchangeTimestamp (ask_window t book ! i) = t"
proof -
  have "ask_window t book ! i \<in> set (ask_window t book)" using assms by simp
  then show ?thesis by (simp add: set_ask_window)
qed

text \<open>A computed row of timestamp \<open>t\<close> is a row of the ladder of \<open>t\<close>.\<close>

lemma bid_book_calc_row:
  assumes "b \<in> set (bid_book_calc oa book)" and "bid_exchangeTimestamp b = t"
  shows "\<exists>i<length (bid_window t book). b = bid_calc oa (bid_window t book) i"
proof -
  obtain r :: trade and i where i: "i < length (bid_window (exchangeTimestamp r) book)"
    and b: "b = bid_calc oa (bid_window (exchangeTimestamp r) book) i"
    using assms(1) in_bid_book_calc [of b oa book] by auto
  define t' where "t' = exchangeTimestamp r"
  note i = i [folded t'_def] and b = b [folded t'_def]
  have "bid_exchangeTimestamp b = t'"
    using bid_window_nth_timestamp [OF i] by (simp add: b bid_calc_fields)
  then show ?thesis using assms(2) i b by blast
qed

lemma ask_book_calc_row:
  assumes "a \<in> set (ask_book_calc oa book)" and "ask_exchangeTimestamp a = t"
  shows "\<exists>i<length (ask_window t book). a = ask_calc oa (ask_window t book) i"
proof -
  obtain r :: trade and i where i: "i < length (ask_window (exchangeTimestamp r) book)"
    and a: "a = ask_calc oa (ask_window (exchangeTimestamp r) book) i"
    using assms(1) in_ask_book_calc [of a oa book] by auto
  define t' where "t' = exchangeTimestamp r"
  note i = i [folded t'_def] and a = a [folded t'_def]
  have "ask_exchangeTimestamp a = t'"
    using ask_window_nth_timestamp [OF i] by (simp add: a ask_calc_fields)
  then show ?thesis using assms(2) i a by blast
qed

lemma bid_book_calc_timestamps:
  "bid_exchangeTimestamp ` set (bid_book_calc oa book) = exchangeTimestamp ` set book"
proof (intro equalityI subsetI)
  fix t assume "t \<in> bid_exchangeTimestamp ` set (bid_book_calc oa book)"
  then obtain b where b: "b \<in> set (bid_book_calc oa book)" and t: "bid_exchangeTimestamp b = t"
    by blast
  from bid_book_calc_row [OF b t] obtain i where "i < length (bid_window t book)" by blast
  then have "bid_window t book ! i \<in> set (bid_window t book)" by simp
  then show "t \<in> exchangeTimestamp ` set book" by (force simp: set_bid_window)
next
  fix t assume "t \<in> exchangeTimestamp ` set book"
  then obtain r where r: "r \<in> set book" and t: "exchangeTimestamp r = t" by blast
  then have "r \<in> set (bid_window t book)" by (simp add: set_bid_window)
  then have z: "0 < length (bid_window t book)" by (cases "bid_window t book") simp_all
  have "bid_calc oa (bid_window t book) 0 \<in> set (bid_book_calc oa book)"
    unfolding in_bid_book_calc using r t z by auto
  moreover have "bid_exchangeTimestamp (bid_calc oa (bid_window t book) 0) = t"
    using bid_window_nth_timestamp [OF z] by (simp add: bid_calc_fields)
  ultimately show "t \<in> bid_exchangeTimestamp ` set (bid_book_calc oa book)" by force
qed

lemma ask_book_calc_timestamps:
  "ask_exchangeTimestamp ` set (ask_book_calc oa book) = exchangeTimestamp ` set book"
proof (intro equalityI subsetI)
  fix t assume "t \<in> ask_exchangeTimestamp ` set (ask_book_calc oa book)"
  then obtain a where a: "a \<in> set (ask_book_calc oa book)" and t: "ask_exchangeTimestamp a = t"
    by blast
  from ask_book_calc_row [OF a t] obtain i where "i < length (ask_window t book)" by blast
  then have "ask_window t book ! i \<in> set (ask_window t book)" by simp
  then show "t \<in> exchangeTimestamp ` set book" by (force simp: set_ask_window)
next
  fix t assume "t \<in> exchangeTimestamp ` set book"
  then obtain r where r: "r \<in> set book" and t: "exchangeTimestamp r = t" by blast
  then have "r \<in> set (ask_window t book)" by (simp add: set_ask_window)
  then have z: "0 < length (ask_window t book)" by (cases "ask_window t book") simp_all
  have "ask_calc oa (ask_window t book) 0 \<in> set (ask_book_calc oa book)"
    unfolding in_ask_book_calc using r t z by auto
  moreover have "ask_exchangeTimestamp (ask_calc oa (ask_window t book) 0) = t"
    using ask_window_nth_timestamp [OF z] by (simp add: ask_calc_fields)
  ultimately show "t \<in> ask_exchangeTimestamp ` set (ask_book_calc oa book)" by force
qed

lemma join_inner_timestamps:
  "(\<lambda>(b, a). bid_exchangeTimestamp b) ` set (join_inner bids asks)
     = bid_exchangeTimestamp ` set bids \<inter> ask_exchangeTimestamp ` set asks"
  by (force simp: join_inner_def)

lemma orderbook_timestamps:
  "set (map ob_exchangeTimestamp (orderbook oa trades))
     = exchangeTimestamp ` set (bid_book trades) \<inter> exchangeTimestamp ` set (ask_book trades)"
proof -
  have "map ob_exchangeTimestamp (orderbook oa trades)
      = remdups (map (\<lambda>(b, a). bid_exchangeTimestamp b)
          (join_inner (bid_book_calc oa (bid_book trades)) (ask_book_calc oa (ask_book trades))))"
    by (simp add: orderbook_def Let_def agg_group_def comp_def)
  then show ?thesis
    by (simp add: join_inner_timestamps bid_book_calc_timestamps ask_book_calc_timestamps)
qed

lemma orderbook_distinct: "distinct (map ob_exchangeTimestamp (orderbook oa trades))"
  by (simp add: orderbook_def Let_def agg_group_def comp_def)

lemma frame_sum_le_total:
  assumes "\<forall>r\<in>set ladder. 0 < f r"
  shows "frame_sum f ladder i \<le> sum_list (map f ladder)"
proof -
  have "sum_list (map f ladder)
      = sum_list (map f (take (Suc i) ladder)) + sum_list (map f (drop (Suc i) ladder))"
    by (simp only: sum_list_append [symmetric] map_append [symmetric] append_take_drop_id)
  moreover have "0 \<le> sum_list (map f (drop (Suc i) ladder))"
  proof (rule sum_list_nonneg)
    fix y assume "y \<in> set (map f (drop (Suc i) ladder))"
    then obtain r where "r \<in> set (drop (Suc i) ladder)" and y: "y = f r" by auto
    then have "r \<in> set ladder" by (meson in_set_dropD)
    then show "0 \<le> y" using assms y by fastforce
  qed
  ultimately show ?thesis by (simp add: frame_sum_def)
qed

text \<open>On a ladder whose total cost is below the notional every computed row is without metrics.\<close>

lemma shallow_ladder_nofill:
  assumes "\<forall>r\<in>set ladder. 0 < price r \<and> 0 < quantity r"
    and "sum_list (map (\<lambda>r. quantity r * price r) ladder) < oa"
  shows "bid_nofill (bid_calc oa ladder i)" and "ask_nofill (ask_calc oa ladder i)"
proof -
  have "\<forall>r\<in>set ladder. 0 < quantity r * price r" using assms(1) by simp
  then have "frame_sum (\<lambda>r. quantity r * price r) ladder i
      \<le> sum_list (map (\<lambda>r. quantity r * price r) ladder)"
    by (rule frame_sum_le_total)
  then have le: "frame_sum (\<lambda>r. quantity r * price r) ladder i \<le> oa" using assms(2) by simp
  show "bid_nofill (bid_calc oa ladder i)"
    by (rule bid_nofill_zero) (simp add: bid_calc_fields slippage_expr_below [OF le])
  show "ask_nofill (ask_calc oa ladder i)"
    by (rule ask_nofill_zero) (simp add: ask_calc_fields slippage_expr_below [OF le])
qed

lemma in_join_inner:
  "(b, a) \<in> set (join_inner bids asks) \<Longrightarrow> b \<in> set bids \<and> a \<in> set asks
     \<and> bid_exchangeTimestamp b = ask_exchangeTimestamp a"
  by (simp add: join_inner_def)

lemma in_orderbook:
  assumes "x \<in> set (orderbook oa trades)"
  shows "x = agg_group (join_inner (bid_book_calc oa (bid_book trades))
                                   (ask_book_calc oa (ask_book trades)))
                       (ob_exchangeTimestamp x)"
proof -
  from assms obtain t where "x = agg_group (join_inner (bid_book_calc oa (bid_book trades))
                                   (ask_book_calc oa (ask_book trades))) t"
    by (auto simp: orderbook_def Let_def)
  moreover from this have "ob_exchangeTimestamp x = t" by (simp add: agg_group_def Let_def)
  ultimately show ?thesis by simp
qed

text \<open>
  Claim C3, as the notebook has it. The claim says that a timestamp at which one side's
  depth is insufficient is absent from the combined output. The notebook joins the
  computed rows of the two books, not clearing records, and groups them: a timestamp is
  in the output, once, exactly when each book has a row at it; and in the record of a
  timestamp \<open>t\<close>, when the bid ladder of \<open>t\<close> has positive prices and quantities and a
  total cost below the notional the three sell metrics are null, and likewise the three
  buy metrics for the ask ladder.
\<close>

theorem combined_output:
  "(t \<in> set (map ob_exchangeTimestamp (orderbook oa trades))
      \<longleftrightarrow> t \<in> exchangeTimestamp ` set (bid_book trades)
        \<and> t \<in> exchangeTimestamp ` set (ask_book trades))
   \<and> distinct (map ob_exchangeTimestamp (orderbook oa trades))
   \<and> (\<forall>x\<in>set (orderbook oa trades). ob_exchangeTimestamp x = t \<longrightarrow>
        ((\<forall>r\<in>set (bid_window t (bid_book trades)). 0 < price r \<and> 0 < quantity r)
           \<and> sum_list (map (\<lambda>r. quantity r * price r) (bid_window t (bid_book trades))) < oa
         \<longrightarrow> ob_sell_currency_slippage x = None \<and> ob_sell_dollar_slippage x = None
           \<and> ob_sell_percent_slippage x = None)
      \<and> ((\<forall>r\<in>set (ask_window t (ask_book trades)). 0 < price r \<and> 0 < quantity r)
           \<and> sum_list (map (\<lambda>r. quantity r * price r) (ask_window t (ask_book trades))) < oa
         \<longrightarrow> ob_buy_currency_slippage x = None \<and> ob_buy_dollar_slippage x = None
           \<and> ob_buy_percent_slippage x = None))"
proof (intro conjI ballI impI)
  show "t \<in> set (map ob_exchangeTimestamp (orderbook oa trades))
      \<longleftrightarrow> t \<in> exchangeTimestamp ` set (bid_book trades)
        \<and> t \<in> exchangeTimestamp ` set (ask_book trades)"
    by (simp only: orderbook_timestamps Int_iff)
  show "distinct (map ob_exchangeTimestamp (orderbook oa trades))"
    by (rule orderbook_distinct)
next
  fix x
  assume x: "x \<in> set (orderbook oa trades)" and t: "ob_exchangeTimestamp x = t"
  define joined where "joined = join_inner (bid_book_calc oa (bid_book trades))
                                   (ask_book_calc oa (ask_book trades))"
  define g where "g = filter (\<lambda>(b, a). bid_exchangeTimestamp b = t) joined"
  have xg: "x = agg_group joined t" using in_orderbook [OF x] t by (simp add: joined_def)
  have grp: "b \<in> set (bid_book_calc oa (bid_book trades)) \<and> bid_exchangeTimestamp b = t
      \<and> a \<in> set (ask_book_calc oa (ask_book trades)) \<and> ask_exchangeTimestamp a = t"
    if "(b, a) \<in> set g" for b a
    using that in_join_inner [of b a] by (auto simp: g_def joined_def)
  {
    assume "(\<forall>r\<in>set (bid_window t (bid_book trades)). 0 < price r \<and> 0 < quantity r)
           \<and> sum_list (map (\<lambda>r. quantity r * price r) (bid_window t (bid_book trades))) < oa"
    then have pos: "\<forall>r\<in>set (bid_window t (bid_book trades)). 0 < price r \<and> 0 < quantity r"
      and tot: "sum_list (map (\<lambda>r. quantity r * price r) (bid_window t (bid_book trades))) < oa"
      by simp_all
    have nf: "bid_nofill b" if "(b, a) \<in> set g" for b a
    proof -
      from grp [OF that] bid_book_calc_row [of b oa "bid_book trades" t]
      obtain i where "b = bid_calc oa (bid_window t (bid_book trades)) i" by blast
      then show ?thesis using shallow_ladder_nofill(1) [OF pos tot] by simp
    qed
    have "\<forall>v\<in>set (map (\<lambda>(b, a). sell_currency_slippage b) g). v = None"
      "\<forall>v\<in>set (map (\<lambda>(b, a). sell_dollar_slippage b) g). v = None"
      "\<forall>v\<in>set (map (\<lambda>(b, a). sell_percent_slippage b) g). v = None"
      using nf by (auto simp: bid_nofill_def)
    then have "first_ignorenulls (map (\<lambda>(b, a). sell_currency_slippage b) g) = None"
      "first_ignorenulls (map (\<lambda>(b, a). sell_dollar_slippage b) g) = None"
      "first_ignorenulls (map (\<lambda>(b, a). sell_percent_slippage b) g) = None"
      by (simp_all only: first_ignorenulls_None)
    then show "ob_sell_currency_slippage x = None" "ob_sell_dollar_slippage x = None"
      "ob_sell_percent_slippage x = None"
      by (simp_all add: xg agg_group_def Let_def g_def)
  }
  {
    assume "(\<forall>r\<in>set (ask_window t (ask_book trades)). 0 < price r \<and> 0 < quantity r)
           \<and> sum_list (map (\<lambda>r. quantity r * price r) (ask_window t (ask_book trades))) < oa"
    then have pos: "\<forall>r\<in>set (ask_window t (ask_book trades)). 0 < price r \<and> 0 < quantity r"
      and tot: "sum_list (map (\<lambda>r. quantity r * price r) (ask_window t (ask_book trades))) < oa"
      by simp_all
    have nf: "ask_nofill a" if "(b, a) \<in> set g" for b a
    proof -
      from grp [OF that] ask_book_calc_row [of a oa "ask_book trades" t]
      obtain i where "a = ask_calc oa (ask_window t (ask_book trades)) i" by blast
      then show ?thesis using shallow_ladder_nofill(2) [OF pos tot] by simp
    qed
    have "\<forall>v\<in>set (map (\<lambda>(b, a). buy_currency_slippage a) g). v = None"
      "\<forall>v\<in>set (map (\<lambda>(b, a). buy_dollar_slippage a) g). v = None"
      "\<forall>v\<in>set (map (\<lambda>(b, a). buy_percent_slippage a) g). v = None"
      using nf by (auto simp: ask_nofill_def)
    then have "first_ignorenulls (map (\<lambda>(b, a). buy_currency_slippage a) g) = None"
      "first_ignorenulls (map (\<lambda>(b, a). buy_dollar_slippage a) g) = None"
      "first_ignorenulls (map (\<lambda>(b, a). buy_percent_slippage a) g) = None"
      by (simp_all only: first_ignorenulls_None)
    then show "ob_buy_currency_slippage x = None" "ob_buy_dollar_slippage x = None"
      "ob_buy_percent_slippage x = None"
      by (simp_all add: xg agg_group_def Let_def g_def)
  }
qed

lemmas pipeline_defs = orderbook_def agg_group_def join_inner_def bid_book_calc_def
  ask_book_calc_def bid_book_def ask_book_def bid_window_def ask_window_def timestampWindow_def

theorem combined_output_witness:
  "orderbook 10 [level 7 False 2 10, level 7 True 1 1]
     = [\<lparr>ob_exchangeTimestamp = 7, ob_buy_currency_slippage = Some 0,
         ob_buy_dollar_slippage = Some 0, ob_buy_percent_slippage = Some 0,
         ob_sell_currency_slippage = None, ob_sell_dollar_slippage = None,
         ob_sell_percent_slippage = None\<rparr>]
   \<and> 7 \<in> exchangeTimestamp ` set (bid_book [level 7 False 2 10, level 7 True 1 1])
   \<and> 7 \<in> exchangeTimestamp ` set (ask_book [level 7 False 2 10, level 7 True 1 1])
   \<and> 7 \<in> set (map ob_exchangeTimestamp (orderbook 10 [level 7 False 2 10, level 7 True 1 1]))
   \<and> list_all (\<lambda>r. 0 < price r \<and> 0 < quantity r)
        (bid_window 7 (bid_book [level 7 False 2 10, level 7 True 1 1]))
   \<and> sum_list (map (\<lambda>r. quantity r * price r)
        (bid_window 7 (bid_book [level 7 False 2 10, level 7 True 1 1]))) < 10"
  using combined_output [of 7 10 "[level 7 False 2 10, level 7 True 1 1]"]
  by (simp add: pipeline_defs eval_defs)

text \<open>
  One ask level of cost 20 and one bid level of cost 1 at timestamp 7, against a notional
  of 10: the bid depth is insufficient, and timestamp 7 is in the combined output, with
  the buy metrics present and the sell metrics null.
\<close>

theorem insufficient_depth_counterexample:
  "sum_list (map (\<lambda>r. quantity r * price r)
        (bid_window 7 (bid_book [level 7 False 2 10, level 7 True 1 1]))) < 10
   \<and> map bid_nofill (bid_book_calc 10 (bid_book [level 7 False 2 10, level 7 True 1 1])) = [True]
   \<and> map ob_exchangeTimestamp (orderbook 10 [level 7 False 2 10, level 7 True 1 1]) = [7]
   \<and> map ob_buy_percent_slippage (orderbook 10 [level 7 False 2 10, level 7 True 1 1]) = [Some 0]
   \<and> map ob_sell_percent_slippage (orderbook 10 [level 7 False 2 10, level 7 True 1 1]) = [None]"
  by (simp add: pipeline_defs eval_defs)

end
